theory Spec2Isabelle
  imports Main "HOL-Library.Multiset"
begin

section \<open>Strings\<close>

text \<open>
  JavaScript strings are modelled as \<open>string\<close> (a list of characters). The operations
  below are the ones the extension calls: \<open>startsWith\<close>, \<open>includes\<close> (here \<open>includes_str\<close>),
  \<open>substring(n)\<close> (which is \<open>drop n\<close>), \<open>split\<close> and \<open>join\<close>.
\<close>

fun startsWith :: "string \<Rightarrow> string \<Rightarrow> bool" where
  "startsWith s [] = True"
| "startsWith [] (p # ps) = False"
| "startsWith (c # cs) (p # ps) = (c = p \<and> startsWith cs ps)"

fun includes_str :: "string \<Rightarrow> string \<Rightarrow> bool" where
  "includes_str [] sub = (sub = [])"
| "includes_str (c # cs) sub = (startsWith (c # cs) sub \<or> includes_str cs sub)"

text \<open>
  \<open>s.split(sep)\<close> for a separator that matches single characters: a string with \<open>n\<close>
  separators yields \<open>n + 1\<close> segments, so the empty string yields one empty segment.
\<close>

fun split :: "(char \<Rightarrow> bool) \<Rightarrow> string \<Rightarrow> string list" where
  "split sep [] = [Nil]"
| "split sep (c # cs) =
     (if sep c then [] # split sep cs
      else (let r = split sep cs in (c # hd r) # tl r))"

definition slash :: char where
  "slash = CHR ''/''"

definition backslash :: char where
  "backslash = CHR 0x5C"

text \<open>The regular expression \<open>[/\<backslash>]\<close> of \<open>buildFolderTree\<close>: either separator.\<close>

definition isSeparator :: "char \<Rightarrow> bool" where
  "isSeparator c = (c = slash \<or> c = backslash)"

definition isSlash :: "char \<Rightarrow> bool" where
  "isSlash c = (c = slash)"

text \<open>\<open>parts.join('/')\<close>.\<close>

fun join :: "string list \<Rightarrow> string" where
  "join [] = []"
| "join [s] = s"
| "join (s # t # ss) = s @ slash # join (t # ss)"

section \<open>Data model (src/git/types.ts)\<close>

datatype Status =
  INDEX_MODIFIED | INDEX_ADDED | INDEX_DELETED | INDEX_RENAMED | INDEX_COPIED
| MODIFIED | DELETED | UNTRACKED | IGNORED | INTENT_TO_ADD
| ADDED_BY_US | ADDED_BY_THEM | DELETED_BY_US | DELETED_BY_THEM
| BOTH_ADDED | BOTH_DELETED | BOTH_MODIFIED

text \<open>Of \<open>vscode.Uri\<close> the extension reads \<open>fsPath\<close> and \<open>path\<close>.\<close>

record Uri =
  fsPath :: string
  uri_path :: string

record Change =
  uri :: Uri
  status :: Status

datatype SourceType = workingTree | branch

record SourceSelection =
  type :: SourceType
  branchName :: "string option"

record DiffResult =
  changes :: "Change list"
  hasConflict :: bool
  error :: "string option"

text \<open>
  What a collaborator call can throw: an \<open>Error\<close> object with its message, or any other
  value, kept as the string \<open>String(error)\<close> gives for it.
\<close>

datatype thrown = Error string | Thrown string

text \<open>
  The host's repository object. \<open>HEAD\<close> is \<open>state.HEAD?.name\<close>. A call to \<open>diffWith\<close>
  or \<open>diffBetween\<close> either resolves to a list of changes (\<open>Inr\<close>) or rejects
  (\<open>Inl\<close>).
\<close>

record Repository =
  rootUri :: Uri
  HEAD :: "string option"
  diffWith :: "string \<Rightarrow> thrown + Change list"
  diffBetween :: "string \<Rightarrow> string \<Rightarrow> thrown + Change list"

record GitService =
  api :: "Repository list option"

text \<open>The calls made to the collaborator, in order.\<close>

datatype request = DiffWith string | DiffBetween string string

section \<open>GitService\<close>

definition getRepository :: "GitService \<Rightarrow> Repository option" where
  "getRepository gs =
     (case api gs of
        None \<Rightarrow> None
      | Some repositories \<Rightarrow> (case repositories of [] \<Rightarrow> None | r # _ \<Rightarrow> Some r))"

definition getCurrentBranchName :: "GitService \<Rightarrow> string" where
  "getCurrentBranchName gs =
     (case getRepository gs of
        None \<Rightarrow> ''HEAD''
      | Some repo \<Rightarrow> (case HEAD repo of None \<Rightarrow> ''HEAD''
                     | Some n \<Rightarrow> if n = [] then ''HEAD'' else n))"

definition errorMessage :: "thrown \<Rightarrow> string" where
  "errorMessage e = (case e of Error m \<Rightarrow> m | Thrown s \<Rightarrow> s)"

definition isBadRevision :: "string \<Rightarrow> bool" where
  "isBadRevision m =
     (includes_str m ''bad revision'' \<or> includes_str m ''unknown revision''
      \<or> includes_str m ''not a valid object name'')"

definition isConflict :: "string \<Rightarrow> bool" where
  "isConflict m =
     (includes_str m ''conflict'' \<or> includes_str m ''CONFLICT'' \<or> includes_str m ''BOTH_MODIFIED'')"

text \<open>
  \<open>getDiffWithConflictDetection\<close>: the first component is the list of collaborator calls
  made, the second the outcome: \<open>Inl\<close> would be an exception leaving the function,
  \<open>Inr\<close> is the returned value. The \<open>case tried of\<close> is the \<open>try\<close>/\<open>catch\<close>.
\<close>

definition getDiffWithConflictDetection ::
  "GitService \<Rightarrow> SourceSelection \<Rightarrow> string \<Rightarrow> request list \<times> (thrown + DiffResult)" where
  "getDiffWithConflictDetection gs source targetBranch =
     (case getRepository gs of
        None \<Rightarrow>
          ([], Inr \<lparr>changes = [], hasConflict = False, error = Some ''No repository found''\<rparr>)
      | Some repo \<Rightarrow>
          (let targetRef = targetBranch;
               skipped = ([], Inr \<lparr>changes = [], hasConflict = False, error = None\<rparr>);
               (requests, tried) =
                 (if type source = workingTree then
                    ([DiffWith targetRef],
                     case diffWith repo targetRef of
                       Inl e \<Rightarrow> Inl e
                     | Inr cs \<Rightarrow> Inr \<lparr>changes = cs, hasConflict = False, error = None\<rparr>)
                  else
                    (case branchName source of
                       None \<Rightarrow> skipped
                     | Some b \<Rightarrow>
                         if b = [] then skipped
                         else
                           ([DiffBetween targetRef b],
                            case diffBetween repo targetRef b of
                              Inl e \<Rightarrow> Inl e
                            | Inr cs \<Rightarrow>
                                Inr \<lparr>changes = cs, hasConflict = False, error = None\<rparr>)))
           in (requests,
               case tried of
                 Inr r \<Rightarrow> Inr r
               | Inl e \<Rightarrow>
                   (let m = errorMessage e in
                    if isBadRevision m then
                      Inr \<lparr>changes = [], hasConflict = False,
                           error = Some (''Branch not found: '' @ targetBranch
                                         @ ''. Try running 'git fetch' first.'')\<rparr>
                    else if isConflict m then
                      Inr \<lparr>changes = [], hasConflict = True,
                           error = Some ''Merge conflict detected between branches''\<rparr>
                    else
                      Inr \<lparr>changes = [], hasConflict = False, error = Some m\<rparr>))))"

section \<open>Sorting with a comparison function\<close>

text \<open>
  \<open>Array.prototype.sort(compareFn)\<close> is stable; for a consistent comparison function its
  result is the one stable sorted arrangement, which insertion computes. An element is
  placed before the first later element it does not compare greater than.
\<close>

fun insert_by :: "('a \<Rightarrow> 'a \<Rightarrow> int) \<Rightarrow> 'a \<Rightarrow> 'a list \<Rightarrow> 'a list" where
  "insert_by compareFn x [] = [x]"
| "insert_by compareFn x (y # ys) =
     (if compareFn x y \<le> 0 then x # y # ys else y # insert_by compareFn x ys)"

fun sort_by :: "('a \<Rightarrow> 'a \<Rightarrow> int) \<Rightarrow> 'a list \<Rightarrow> 'a list" where
  "sort_by compareFn [] = []"
| "sort_by compareFn (x # xs) = insert_by compareFn x (sort_by compareFn xs)"

text \<open>
  \<open>String.prototype.localeCompare\<close> belongs to the host and depends on its locale, so
  it is a parameter \<open>localeCompare\<close> of every function that sorts. What is assumed of it
  is that it is a consistent comparison function in the sense of the language standard:
\<close>

definition consistent :: "('a \<Rightarrow> 'a \<Rightarrow> int) \<Rightarrow> bool" where
  "consistent compareFn =
     ((\<forall>a. compareFn a a = 0)
      \<and> (\<forall>a b. (compareFn a b < 0) = (compareFn b a > 0))
      \<and> (\<forall>a b c. compareFn a b \<le> 0 \<and> compareFn b c \<le> 0 \<longrightarrow> compareFn a c \<le> 0))"

text \<open>
  One such function, used to run the model on concrete inputs: comparison by character
  code, position by position, a proper prefix first.
\<close>

fun codeCompare :: "string \<Rightarrow> string \<Rightarrow> int" where
  "codeCompare [] [] = 0"
| "codeCompare [] (y # ys) = - 1"
| "codeCompare (x # xs) [] = 1"
| "codeCompare (x # xs) (y # ys) =
     (if (of_char x :: nat) < of_char y then - 1
      else if (of_char y :: nat) < of_char x then 1
      else codeCompare xs ys)"

section \<open>The folder tree (views/branchTreeProvider.ts)\<close>

text \<open>
  \<open>children\<close> is a \<open>Map<string, FolderNode>\<close>: a list of entries in insertion order,
  looked up by key with \<open>map_of\<close>.
\<close>

datatype FolderNode =
  FolderNode (name: string) (path: string)
             (children: "(string \<times> FolderNode) list") (files: "Change list")

text \<open>Replaces the value held under a key; the entry keeps its place.\<close>

fun updateEntry :: "string \<Rightarrow> ('v \<Rightarrow> 'v) \<Rightarrow> (string \<times> 'v) list \<Rightarrow> (string \<times> 'v) list" where
  "updateEntry k f [] = []"
| "updateEntry k f ((k', v) # es) =
     (if k' = k then (k', f v) # es else (k', v) # updateEntry k f es)"

text \<open>
  The path relative to the repository root, as \<open>buildFolderTree\<close> and \<open>createGitUri\<close>
  both compute it: the root is removed when the path starts with it, then one leading
  separator.
\<close>

definition relativePath :: "string \<Rightarrow> string \<Rightarrow> string" where
  "relativePath repoRoot p =
     (if startsWith p repoRoot then
        (let r = drop (length repoRoot) p
         in if startsWith r [slash] \<or> startsWith r [backslash] then drop 1 r else r)
      else p)"

text \<open>\<open>parts\<close> after \<open>parts.pop()\<close>: the folder segments of a change.\<close>

definition folderParts :: "string \<Rightarrow> Change \<Rightarrow> string list" where
  "folderParts repoRoot change =
     butlast (split isSeparator (relativePath repoRoot (fsPath (uri change))))"

text \<open>
  The body of the outer loop of \<open>buildFolderTree\<close> for one change: the inner loop walks
  \<open>parts\<close> from \<open>current\<close>, creating the missing folders, and the change is pushed onto
  the files of the folder reached. The nodes are mutable objects in the source; here the
  updated node is returned.
\<close>

fun addChange :: "string list \<Rightarrow> string \<Rightarrow> Change \<Rightarrow> FolderNode \<Rightarrow> FolderNode" where
  "addChange [] currentPath change current =
     FolderNode (name current) (path current) (children current) (files current @ [change])"
| "addChange (part # parts) currentPath change current =
     (let currentPath' = (if currentPath \<noteq> [] then currentPath @ slash # part else part);
          children' =
            (if map_of (children current) part = None
             then children current @ [(part, FolderNode part currentPath' [] [])]
             else children current)
      in FolderNode (name current) (path current)
           (updateEntry part (\<lambda>child. addChange parts currentPath' change child) children')
           (files current))"

definition repoRootOf :: "GitService \<Rightarrow> string" where
  "repoRootOf gs = (case getRepository gs of None \<Rightarrow> [] | Some repo \<Rightarrow> fsPath (rootUri repo))"

definition buildFolderTree :: "GitService \<Rightarrow> Change list \<Rightarrow> FolderNode" where
  "buildFolderTree gs cs =
     (let repoRoot = repoRootOf gs
      in foldl (\<lambda>root change. addChange (folderParts repoRoot change) [] change root)
           (FolderNode [] [] [] []) cs)"

text \<open>The loop of \<open>getFolderChildren\<close>: \<open>None\<close> when a segment has no child.\<close>

fun walk :: "FolderNode \<Rightarrow> string list \<Rightarrow> FolderNode option" where
  "walk current [] = Some current"
| "walk current (part # parts) =
     (case map_of (children current) part of
        None \<Rightarrow> None
      | Some child \<Rightarrow> walk child parts)"

text \<open>The effect on the tree of mutating the node at a position.\<close>

fun modifyAt :: "string list \<Rightarrow> (FolderNode \<Rightarrow> FolderNode) \<Rightarrow> FolderNode \<Rightarrow> FolderNode" where
  "modifyAt [] f node = f node"
| "modifyAt (part # parts) f node =
     FolderNode (name node) (path node)
       (updateEntry part (\<lambda>child. modifyAt parts f child) (children node)) (files node)"

section \<open>Tree items\<close>

datatype TreeItemType = Source | Target | Separator | Folder | File | Conflict | Info

datatype TreeItemCollapsibleState = NoneState | Collapsed | Expanded

text \<open>
  A command of an item: its identifier, its title, and for \<open>showFileDiff\<close> the arguments
  \<open>[change, target, source]\<close>.
\<close>

datatype Command =
  Command (command_id: string) (title: string)
          (arguments: "(Change \<times> string option \<times> SourceSelection) option")

text \<open>\<open>resourceUri\<close>: \<open>Uri.file(path)\<close> for a folder, the change's own uri for a file.\<close>

datatype resource = FileUri string | ChangeUri Uri

record BranchTreeItem =
  label :: string
  itemType :: TreeItemType
  collapsibleState :: TreeItemCollapsibleState
  folderPath :: "string option"
  change :: "Change option"
  iconPath :: "string option"
  description :: "string option"
  command :: "Command option"
  resourceUri :: "resource option"
  tooltip :: "string option"

text \<open>\<open>setupFileDecoration\<close>: the status letter.\<close>

fun setupFileDecoration :: "Status \<Rightarrow> string option" where
  "setupFileDecoration INDEX_ADDED = Some ''A''"
| "setupFileDecoration UNTRACKED = Some ''A''"
| "setupFileDecoration INDEX_DELETED = Some ''D''"
| "setupFileDecoration DELETED = Some ''D''"
| "setupFileDecoration INDEX_MODIFIED = Some ''M''"
| "setupFileDecoration MODIFIED = Some ''M''"
| "setupFileDecoration INDEX_RENAMED = Some ''R''"
| "setupFileDecoration _ = None"

text \<open>
  The constructor of \<open>BranchTreeItem\<close>, with \<open>setupIcon\<close> and \<open>setupCommand\<close>. The
  \<open>contextValue\<close> it sets is the item type, which \<open>itemType\<close> already holds.
\<close>

definition newBranchTreeItem ::
  "string \<Rightarrow> TreeItemType \<Rightarrow> TreeItemCollapsibleState \<Rightarrow> string option \<Rightarrow> Change option
   \<Rightarrow> BranchTreeItem" where
  "newBranchTreeItem l t st fp ch =
     \<lparr>label = l, itemType = t, collapsibleState = st, folderPath = fp, change = ch,
      iconPath =
        (case t of Source \<Rightarrow> Some ''git-commit'' | Target \<Rightarrow> Some ''git-compare''
         | Conflict \<Rightarrow> Some ''warning'' | Info \<Rightarrow> Some ''info'' | _ \<Rightarrow> None),
      description =
        (case t of File \<Rightarrow> (case ch of None \<Rightarrow> None | Some c \<Rightarrow> setupFileDecoration (status c))
         | _ \<Rightarrow> None),
      command =
        (case t of
           Source \<Rightarrow> Some (Command ''branch-diff.changeSource'' ''Change Source'' None)
         | Target \<Rightarrow> Some (Command ''branch-diff.changeTarget'' ''Change Target'' None)
         | _ \<Rightarrow> None),
      resourceUri = None, tooltip = None\<rparr>"

section \<open>BranchTreeProvider\<close>

text \<open>
  The provider's fields, with two observations of its effects: \<open>fired\<close> counts the
  \<open>_onDidChangeTreeData.fire()\<close> signals sent to listeners, \<open>requests\<close> lists the diff
  calls made to the collaborator.
\<close>

record BranchTreeProvider =
  gitService :: GitService
  source :: SourceSelection
  target :: "string option"
  diffResult :: "DiffResult option"
  folderTree :: "FolderNode option"
  fired :: nat
  requests :: "request list"

definition newBranchTreeProvider :: "GitService \<Rightarrow> BranchTreeProvider" where
  "newBranchTreeProvider gs =
     \<lparr>gitService = gs, source = \<lparr>type = workingTree, branchName = None\<rparr>, target = None,
      diffResult = None, folderTree = None, fired = 0, requests = []\<rparr>"

definition refresh :: "BranchTreeProvider \<Rightarrow> BranchTreeProvider" where
  "refresh p = p\<lparr>diffResult := None, folderTree := None, fired := Suc (fired p)\<rparr>"


definition setTarget :: "string \<Rightarrow> BranchTreeProvider \<Rightarrow> BranchTreeProvider" where
  "setTarget t p = refresh (p\<lparr>target := Some t, diffResult := None, folderTree := None\<rparr>)"

text \<open>\<open>x || d\<close> for an optional string: \<open>undefined\<close> and the empty string give \<open>d\<close>.\<close>

definition orElse :: "string option \<Rightarrow> string \<Rightarrow> string" where
  "orElse x d = (case x of None \<Rightarrow> d | Some s \<Rightarrow> if s = [] then d else s)"

definition getSourceLabel :: "BranchTreeProvider \<Rightarrow> string" where
  "getSourceLabel p =
     (if type (source p) = workingTree
      then ''Working Tree ('' @ getCurrentBranchName (gitService p) @ '')''
      else orElse (branchName (source p)) ''Unknown'')"

text \<open>\<open>uri.path.split('/').pop()\<close>: the last segment.\<close>

definition lastSegment :: "Change \<Rightarrow> string" where
  "lastSegment c = last (split isSlash (uri_path (uri c)))"

text \<open>
  \<open>createTreeItems\<close>. \<open>node.files.sort(...)\<close> sorts the array of the node itself, so the
  node is returned with its files in the sorted order, next to the items.
\<close>

definition createTreeItems ::
  "(string \<Rightarrow> string \<Rightarrow> int) \<Rightarrow> BranchTreeProvider \<Rightarrow> FolderNode
   \<Rightarrow> BranchTreeItem list \<times> FolderNode" where
  "createTreeItems localeCompare p node =
     (let sortedFolders =
            sort_by (\<lambda>a b. localeCompare (name a) (name b)) (map snd (children node));
          sortedFiles =
            sort_by (\<lambda>a b. localeCompare (orElse (Some (lastSegment a)) [])
                                          (orElse (Some (lastSegment b)) []))
              (files node);
          repoRoot = repoRootOf (gitService p);
          folderItems =
            map (\<lambda>folder.
                   (newBranchTreeItem (name folder) Folder Expanded (Some (path folder)) None)
                     \<lparr>resourceUri := Some (FileUri (repoRoot @ slash # path folder))\<rparr>)
              sortedFolders;
          fileItems =
            map (\<lambda>c.
                   (newBranchTreeItem (orElse (Some (lastSegment c)) (uri_path (uri c)))
                      File NoneState None (Some c))
                     \<lparr>resourceUri := Some (ChangeUri (uri c)),
                      tooltip := Some (fsPath (uri c)),
                      command := Some (Command ''branch-diff.showFileDiff'' ''Show Diff''
                                         (Some (c, target p, source p)))\<rparr>)
              sortedFiles
      in (folderItems @ fileItems,
          FolderNode (name node) (path node) (children node) sortedFiles))"

definition getFolderChildren ::
  "(string \<Rightarrow> string \<Rightarrow> int) \<Rightarrow> BranchTreeProvider \<Rightarrow> string
   \<Rightarrow> BranchTreeItem list \<times> BranchTreeProvider" where
  "getFolderChildren localeCompare p fp =
     (case folderTree p of
        None \<Rightarrow> ([], p)
      | Some tree \<Rightarrow>
          (let parts = split isSlash fp
           in case walk tree parts of
                None \<Rightarrow> ([], p)
              | Some current \<Rightarrow>
                  (let (items, current') = createTreeItems localeCompare p current
                   in (items, p\<lparr>folderTree := Some (modifyAt parts (\<lambda>_. current') tree)\<rparr>))))"

text \<open>A number in a template string: its decimal digits.\<close>

fun digits :: "nat \<Rightarrow> string" where
  "digits n =
     (if n < 10 then [char_of (48 + n)] else digits (n div 10) @ [char_of (48 + n mod 10)])"

text \<open>The label of the separator item: seventeen box-drawing dashes, in UTF-8.\<close>

definition separatorLabel :: string where
  "separatorLabel = concat (replicate 17 [CHR 0xE2, CHR 0x94, CHR 0x80])"

text \<open>
  \<open>getRootItems\<close>. The outcome is the list of items, or \<open>Inl\<close> if the awaited diff call
  were to throw; the provider is returned with \<open>_diffResult\<close> and \<open>_folderTree\<close> as the
  call leaves them.
\<close>

definition getRootItems ::
  "(string \<Rightarrow> string \<Rightarrow> int) \<Rightarrow> BranchTreeProvider
   \<Rightarrow> (thrown + BranchTreeItem list) \<times> BranchTreeProvider" where
  "getRootItems localeCompare p =
     (let sourceLabel = getSourceLabel p;
          targetLabel = orElse (target p) ''(click to select)'';
          items = [newBranchTreeItem (''Source: '' @ sourceLabel) Source NoneState None None,
                   newBranchTreeItem (''Target: '' @ targetLabel) Target NoneState None None]
      in case target p of
           None \<Rightarrow> (Inr items, p)
         | Some t \<Rightarrow>
             if t = [] then (Inr items, p)
             else
               (let items = items @ [newBranchTreeItem separatorLabel Separator NoneState None None];
                    (fetched, p) =
                      (case diffResult p of
                         Some r \<Rightarrow> (Inr r, p)
                       | None \<Rightarrow>
                           (let (made, outcome) =
                                  getDiffWithConflictDetection (gitService p) (source p) t;
                                p = p\<lparr>requests := requests p @ made\<rparr>
                            in case outcome of
                                 Inl e \<Rightarrow> (Inl e, p)
                               | Inr r \<Rightarrow> (Inr r, p\<lparr>diffResult := Some r\<rparr>)))
                in case fetched of
                     Inl e \<Rightarrow> (Inl e, p)
                   | Inr r \<Rightarrow>
                       if hasConflict r then
                         (Inr (items @
                            [(newBranchTreeItem
                                ''Conflict detected - cannot diff between branches''
                                Conflict NoneState None None)
                               \<lparr>tooltip :=
                                  Some (orElse (error r)
                                          ''Merge conflict detected between branches'')\<rparr>]), p)
                       else if orElse (error r) [] \<noteq> [] then
                         (Inr (items @
                            [newBranchTreeItem (''Error: '' @ orElse (error r) [])
                               Conflict NoneState None None]), p)
                       else
                         (let fileCount = length (changes r)
                          in if fileCount = 0 then
                               (Inr (items @
                                  [newBranchTreeItem ''No changes'' Info NoneState None None]), p)
                             else
                               (let countItem =
                                      newBranchTreeItem
                                        (digits fileCount @ '' file''
                                         @ (if fileCount > 1 then ''s'' else []) @ '' changed'')
                                        Info NoneState None None;
                                    (rootItems, tree) =
                                      createTreeItems localeCompare p
                                        (buildFolderTree (gitService p) (changes r))
                                in (Inr (items @ [countItem] @ rootItems),
                                    p\<lparr>folderTree := Some tree\<rparr>)))))"

text \<open>\<open>getChildren\<close>: the entry point the tree view calls.\<close>

definition getChildren ::
  "(string \<Rightarrow> string \<Rightarrow> int) \<Rightarrow> BranchTreeProvider \<Rightarrow> BranchTreeItem option
   \<Rightarrow> (thrown + BranchTreeItem list) \<times> BranchTreeProvider" where
  "getChildren localeCompare p element =
     (if getRepository (gitService p) = None then
        (Inr [newBranchTreeItem ''No Git repository found'' Info NoneState None None], p)
      else
        (case element of
           None \<Rightarrow> getRootItems localeCompare p
         | Some el \<Rightarrow>
             if itemType el = Folder \<and> orElse (folderPath el) [] \<noteq> [] then
               (let (items, p) = getFolderChildren localeCompare p (orElse (folderPath el) [])
                in (Inr items, p))
             else (Inr [], p)))"

section \<open>Observations on a tree\<close>

text \<open>
  Every file of a tree with the names of the folders above it, from the root down: the
  files of the node itself first, then those of each child.
\<close>

fun entries :: "FolderNode \<Rightarrow> (string list \<times> Change) list" where
  "entries (FolderNode n p ch fs) =
     map (Pair []) fs
     @ concat (map (\<lambda>e. map (\<lambda>(ps, c). (name (snd e) # ps, c)) (entries (snd e))) ch)"

text \<open>
  The entries of a \<open>Map\<close> have distinct keys, and \<open>buildFolderTree\<close> stores a folder
  under its own name.
\<close>

fun keyed :: "FolderNode \<Rightarrow> bool" where
  "keyed (FolderNode n p ch fs) =
     (distinct (map fst ch) \<and> (\<forall>e \<in> set ch. name (snd e) = fst e \<and> keyed (snd e)))"

text \<open>A path with each backslash written as a slash.\<close>

definition slashed :: "string \<Rightarrow> string" where
  "slashed s = map (\<lambda>c. if c = backslash then slash else c) s"

section \<open>What the specification says, where it differs from the code\<close>

text \<open>
  The specification describes the classification of error messages as a
  case-insensitive substring match. That reading is written down here, to be compared
  with \<open>includes_str\<close>, which is what the code calls.
\<close>

definition toLowerCase :: "char \<Rightarrow> char" where
  "toLowerCase c =
     (let n = (of_char c :: nat) in if 65 \<le> n \<and> n \<le> 90 then char_of (n + 32) else c)"

definition includes_ignoring_case :: "string \<Rightarrow> string \<Rightarrow> bool" where
  "includes_ignoring_case m phrase =
     includes_str (map toLowerCase m) (map toLowerCase phrase)"

text \<open>
  The specification reads the folder names of a file, joined with the slash and followed
  by its last segment, as the file's relative path.
\<close>

definition reconstructedPath :: "string \<Rightarrow> Change \<Rightarrow> string" where
  "reconstructedPath repoRoot c =
     join (folderParts repoRoot c
           @ [last (split isSeparator (relativePath repoRoot (fsPath (uri c))))])"

section \<open>Concrete inputs\<close>

text \<open>A repository at the given root whose diff calls answer as given.\<close>

definition repositoryWith ::
  "string \<Rightarrow> (string \<Rightarrow> thrown + Change list) \<Rightarrow> (string \<Rightarrow> string \<Rightarrow> thrown + Change list)
   \<Rightarrow> Repository" where
  "repositoryWith root dw db =
     \<lparr>rootUri = \<lparr>fsPath = root, uri_path = root\<rparr>, HEAD = Some ''main'',
      diffWith = dw, diffBetween = db\<rparr>"

definition serviceWith ::
  "string \<Rightarrow> (string \<Rightarrow> thrown + Change list) \<Rightarrow> (string \<Rightarrow> string \<Rightarrow> thrown + Change list)
   \<Rightarrow> GitService" where
  "serviceWith root dw db = \<lparr>api = Some [repositoryWith root dw db]\<rparr>"

text \<open>Every diff call is rejected with the given value.\<close>

definition rejectingService :: "thrown \<Rightarrow> GitService" where
  "rejectingService e = serviceWith ''/repo'' (\<lambda>r. Inl e) (\<lambda>r1 r2. Inl e)"

text \<open>Every diff call resolves to the given changes.\<close>

definition resolvingService :: "string \<Rightarrow> Change list \<Rightarrow> GitService" where
  "resolvingService root cs = serviceWith root (\<lambda>r. Inr cs) (\<lambda>r1 r2. Inr cs)"

definition changeAt :: "string \<Rightarrow> Status \<Rightarrow> Change" where
  "changeAt p s = \<lparr>uri = \<lparr>fsPath = p, uri_path = p\<rparr>, status = s\<rparr>"

text \<open>The three changes of the specification's scenario, below \<open>/repo\<close>.\<close>

definition exampleChanges :: "Change list" where
  "exampleChanges =
     [changeAt ''/repo/src/a.ts'' MODIFIED, changeAt ''/repo/src/sub/b.ts'' INDEX_ADDED,
      changeAt ''/repo/README.md'' DELETED]"

definition exampleService :: GitService where
  "exampleService = resolvingService ''/repo'' exampleChanges"

text \<open>A provider on that service after \<open>main\<close> was chosen as the target.\<close>

definition exampleProvider :: BranchTreeProvider where
  "exampleProvider = setTarget ''main'' (newBranchTreeProvider exampleService)"

text \<open>A folder with two subfolders and two files, neither in sorted order.\<close>

definition exampleNode :: FolderNode where
  "exampleNode =
     FolderNode [] []
       [(''src'', FolderNode ''src'' ''src'' [] []), (''docs'', FolderNode ''docs'' ''docs'' [] [])]
       [changeAt ''/repo/b.ts'' MODIFIED, changeAt ''/repo/a.ts'' INDEX_ADDED]"

text \<open>
  The file name \<open>e-acute.ts\<close> written in two ways, in UTF-8: with the single letter
  e-acute (bytes C3 A9), and with the letter e followed by the combining acute accent
  (bytes CC 81).
\<close>

definition composedName :: string where
  "composedName = CHR 0xC3 # CHR 0xA9 # ''.ts''"

definition decomposedName :: string where
  "decomposedName = CHR ''e'' # CHR 0xCC # CHR 0x81 # ''.ts''"

text \<open>
  A conforming \<open>localeCompare\<close> returns 0 for strings that are canonically equivalent.
  This comparison does so for the two ways of writing e-acute: it reads the letter e
  followed by the combining accent as the single letter, then compares by character
  code.
\<close>

fun composeAcute :: "string \<Rightarrow> string" where
  "composeAcute (a # b # c # cs) =
     (if a = CHR ''e'' \<and> b = CHR 0xCC \<and> c = CHR 0x81
      then CHR 0xC3 # CHR 0xA9 # composeAcute cs
      else a # composeAcute (b # c # cs))"
| "composeAcute cs = cs"

definition canonicalCompare :: "string \<Rightarrow> string \<Rightarrow> int" where
  "canonicalCompare a b = codeCompare (composeAcute a) (composeAcute b)"

text \<open>A folder holding one file under each of the two names.\<close>

definition acuteNode :: FolderNode where
  "acuteNode =
     FolderNode [] [] []
       [changeAt (''/repo/'' @ composedName) MODIFIED,
        changeAt (''/repo/'' @ decomposedName) MODIFIED]"

text \<open>A change below the root \<open>C:\<backslash>repo\<close>, with backslashes as separators.\<close>

definition windowsRoot :: string where
  "windowsRoot = ''C:'' @ backslash # ''repo''"

definition windowsChange :: Change where
  "windowsChange =
     changeAt (windowsRoot @ backslash # ''src'' @ backslash # ''sub'' @ backslash # ''b.ts'')
       MODIFIED"

section \<open>Strings and paths\<close>

lemma split_nonempty: "split sep s \<noteq> []"
  by (induction s) (auto simp: Let_def)

lemma join_Cons: "r \<noteq> [] \<Longrightarrow> join (s # r) = s @ slash # join r"
  by (cases r) auto

lemma slashed_Cons: "slashed (c # cs) = (if isSeparator c then slash else c) # slashed cs"
  by (auto simp: slashed_def isSeparator_def)

lemma join_split: "join (split isSeparator s) = slashed s"
proof (induction s)
  case Nil
  show ?case by (simp add: slashed_def)
next
  case (Cons c cs)
  obtain h t where ht: "split isSeparator cs = h # t"
    using split_nonempty[of isSeparator cs] by (cases "split isSeparator cs") auto
  show ?case
  proof (cases "isSeparator c")
    case True
    then show ?thesis using Cons
      by (simp add: join_Cons split_nonempty slashed_Cons)
  next
    case False
    have "join (split isSeparator (c # cs)) = c # join (split isSeparator cs)"
      using ht False by (cases t) auto
    then show ?thesis using Cons False
      by (simp add: slashed_Cons)
  qed
qed

lemma join_snoc: "xs \<noteq> [] \<Longrightarrow> join (xs @ [y]) = join xs @ slash # y"
  by (induction xs rule: join.induct) auto

lemma startsWith_append: "startsWith (p @ r) p"
  by (induction p) auto

lemma startsWith_single: "startsWith r [c] = (r \<noteq> [] \<and> hd r = c)"
  by (cases r) auto

lemma relativePath_prefix:
  "relativePath root (root @ rest)
   = (if startsWith rest [slash] \<or> startsWith rest [backslash] then drop 1 rest else rest)"
  by (simp add: relativePath_def startsWith_append Let_def)

lemma reconstructedPath_slashed:
  "reconstructedPath root c = slashed (relativePath root (fsPath (uri c)))"
  using join_split[of "relativePath root (fsPath (uri c))"]
    split_nonempty[of isSeparator "relativePath root (fsPath (uri c))"]
  by (simp add: reconstructedPath_def folderParts_def)

section \<open>Adding a change to the tree\<close>

lemma map_of_updateEntry:
  "map_of (updateEntry k f es) k' = (if k' = k then map_option f (map_of es k) else map_of es k')"
  by (induction es) auto

lemma fst_updateEntry: "map fst (updateEntry k f es) = map fst es"
  by (induction es) auto

lemma set_updateEntry:
  "e \<in> set (updateEntry k f es) \<Longrightarrow> e \<in> set es \<or> (\<exists>v. (k, v) \<in> set es \<and> e = (k, f v))"
  by (induction es) (auto split: if_splits)

lemma name_addChange: "name (addChange parts cp c node) = name node"
  by (cases parts) (auto simp: Let_def)

lemma keyed_addChange: "keyed node \<Longrightarrow> keyed (addChange parts cp c node)"
proof (induction parts arbitrary: cp node)
  case Nil
  then show ?case by (cases node) auto
next
  case (Cons part parts)
  obtain n p ch fs where node: "node = FolderNode n p ch fs" by (cases node)
  show ?case using Cons.prems
    by (auto simp: node Let_def fst_updateEntry map_of_eq_None_iff name_addChange
        dest!: set_updateEntry intro!: Cons.IH) force+
qed

lemma entries_updateEntry:
  assumes "map_of es k = Some v" "name (f v) = name v"
  shows "mset (concat (map (\<lambda>e. map (\<lambda>(ps, c). (name (snd e) # ps, c)) (entries (snd e)))
                 (updateEntry k f es)))
         + mset (map (\<lambda>(ps, c). (name v # ps, c)) (entries v))
       = mset (concat (map (\<lambda>e. map (\<lambda>(ps, c). (name (snd e) # ps, c)) (entries (snd e))) es))
         + mset (map (\<lambda>(ps, c). (name v # ps, c)) (entries (f v)))"
  using assms
  by (induction es) (auto split: if_splits)

lemma entries_addChange:
  "keyed node \<Longrightarrow>
   mset (entries (addChange parts cp c node)) = mset (entries node) + {#(parts, c)#}"
proof (induction parts arbitrary: cp node)
  case Nil
  then show ?case by (cases node) auto
next
  case (Cons part parts)
  obtain n p ch fs where node: "node = FolderNode n p ch fs" by (cases node)
  define cp' where "cp' = (if cp \<noteq> [] then cp @ slash # part else part)"
  define ch' where "ch' = (if map_of ch part = None then ch @ [(part, FolderNode part cp' [] [])] else ch)"
  let ?E = "\<lambda>es. mset (concat (map (\<lambda>e. map (\<lambda>(ps, c). (name (snd e) # ps, c)) (entries (snd e))) es))"
  let ?X = "\<lambda>v. mset (map (\<lambda>(ps, c). (name v # ps, c)) (entries v))"
  obtain v where v: "map_of ch' part = Some v"
    by (cases "map_of ch part") (auto simp: ch'_def map_add_def)
  have kv: "keyed v" "name v = part"
    using v Cons.prems
    by (auto simp: node ch'_def map_add_def split: if_splits option.splits dest!: map_of_SomeD)
  have step: "addChange (part # parts) cp c node
              = FolderNode n p (updateEntry part (addChange parts cp' c) ch') fs"
    by (simp add: node Let_def cp'_def ch'_def)
  have IH: "mset (entries (addChange parts cp' c v)) = mset (entries v) + {#(parts, c)#}"
    using Cons.IH[OF kv(1)] .
  have X: "?X (addChange parts cp' c v) = ?X v + {#(part # parts, c)#}"
    by (simp add: IH name_addChange kv)
  have ch'_entries: "?E ch' = ?E ch"
    by (auto simp: ch'_def)
  have "?E (updateEntry part (addChange parts cp' c) ch') + ?X v
        = ?E ch' + ?X (addChange parts cp' c v)"
    using entries_updateEntry[OF v, of "addChange parts cp' c"] by (simp add: name_addChange)
  also have "\<dots> = ?E ch + (?X v + {#(part # parts, c)#})"
    by (simp only: X ch'_entries)
  also have "\<dots> = (?E ch + {#(part # parts, c)#}) + ?X v"
    by (simp only: ac_simps)
  finally have "?E (updateEntry part (addChange parts cp' c) ch') + ?X v
        = (?E ch + {#(part # parts, c)#}) + ?X v" .
  then have "?E (updateEntry part (addChange parts cp' c) ch') = ?E ch + {#(part # parts, c)#}"
    by (simp only: add_right_cancel)
  then show ?case
    unfolding step by (simp add: node)
qed

lemma entries_foldl:
  "keyed acc \<Longrightarrow>
   keyed (foldl (\<lambda>root change. addChange (folderParts repoRoot change) [] change root) acc cs)
   \<and> mset (entries (foldl (\<lambda>root change. addChange (folderParts repoRoot change) [] change root) acc cs))
     = mset (entries acc) + mset (map (\<lambda>c. (folderParts repoRoot c, c)) cs)"
  by (induction cs arbitrary: acc) (simp_all add: keyed_addChange entries_addChange)

lemma entries_buildFolderTree:
  "mset (entries (buildFolderTree gs cs)) = mset (map (\<lambda>c. (folderParts (repoRootOf gs) c, c)) cs)"
  using entries_foldl[of "FolderNode [] [] [] []" "repoRootOf gs" cs]
  by (simp add: buildFolderTree_def)

lemma files_buildFolderTree: "mset (map snd (entries (buildFolderTree gs cs))) = mset cs"
proof -
  have "mset (map snd (entries (buildFolderTree gs cs)))
        = image_mset snd (mset (entries (buildFolderTree gs cs)))"
    by simp
  also have "\<dots> = image_mset snd (mset (map (\<lambda>c. (folderParts (repoRootOf gs) c, c)) cs))"
    by (simp only: entries_buildFolderTree)
  also have "\<dots> = mset cs"
    by (simp add: image_mset.compositionality o_def)
  finally show ?thesis .
qed

lemma keyed_buildFolderTree: "keyed (buildFolderTree gs cs)"
  using entries_foldl[of "FolderNode [] [] [] []" "repoRootOf gs" cs]
  by (simp add: buildFolderTree_def)

lemma walk_addChange_same:
  "\<exists>n'. walk (addChange parts cp c node) parts = Some n' \<and> c \<in> set (files n')"
proof (induction parts arbitrary: cp node)
  case Nil
  show ?case by simp
next
  case (Cons part parts)
  show ?case
    by (cases "map_of (children node) part")
       (auto simp: Let_def map_of_updateEntry map_add_def Cons.IH)
qed

lemma walk_addChange_other:
  "walk node ps = Some n \<Longrightarrow> c' \<in> set (files n) \<Longrightarrow>
   \<exists>n'. walk (addChange parts cp c node) ps = Some n' \<and> c' \<in> set (files n')"
proof (induction parts arbitrary: cp node ps)
  case Nil
  then show ?case by (cases ps) auto
next
  case (Cons part parts)
  show ?case
  proof (cases ps)
    case Nil
    then show ?thesis using Cons.prems by (simp add: Let_def)
  next
    case (Cons q qs)
    then obtain child where child: "map_of (children node) q = Some child" "walk child qs = Some n"
      using Cons.prems by (auto split: option.splits)
    show ?thesis
    proof (cases "q = part")
      case True
      then show ?thesis
        using child Cons.prems(2) Cons.IH[OF child(2) Cons.prems(2)]
        by (simp add: Cons Let_def map_of_updateEntry)
    next
      case False
      then show ?thesis
        using child Cons.prems(2)
        by (auto simp: Cons Let_def map_of_updateEntry map_add_def split: option.splits)
    qed
  qed
qed

lemma walk_foldl:
  "(\<exists>n. walk acc (folderParts repoRoot c) = Some n \<and> c \<in> set (files n)) \<or> c \<in> set cs \<Longrightarrow>
   \<exists>n. walk (foldl (\<lambda>root change. addChange (folderParts repoRoot change) [] change root) acc cs)
          (folderParts repoRoot c) = Some n \<and> c \<in> set (files n)"
proof (induction cs arbitrary: acc)
  case Nil
  then show ?case by simp
next
  case (Cons d ds)
  let ?acc = "addChange (folderParts repoRoot d) [] d acc"
  have "(\<exists>n. walk ?acc (folderParts repoRoot c) = Some n \<and> c \<in> set (files n)) \<or> c \<in> set ds"
  proof (cases "\<exists>n. walk acc (folderParts repoRoot c) = Some n \<and> c \<in> set (files n)")
    case True
    then show ?thesis using walk_addChange_other by blast
  next
    case False
    then have "c = d \<or> c \<in> set ds" using Cons.prems by auto
    then show ?thesis using walk_addChange_same by blast
  qed
  then show ?case using Cons.IH[of ?acc] by simp
qed

lemma walk_buildFolderTree:
  "c \<in> set cs \<Longrightarrow>
   \<exists>n. walk (buildFolderTree gs cs) (folderParts (repoRootOf gs) c) = Some n \<and> c \<in> set (files n)"
  using walk_foldl[of "FolderNode [] [] [] []" "repoRootOf gs" c cs]
  by (simp add: buildFolderTree_def)


section \<open>Sorting\<close>

lemma mset_insert_by: "mset (insert_by f x xs) = add_mset x (mset xs)"
  by (induction xs) auto

lemma mset_sort_by: "mset (sort_by f xs) = mset xs"
  by (induction xs) (auto simp: mset_insert_by)

lemma length_sort_by: "length (sort_by f xs) = length xs"
  using mset_sort_by[of f xs] by (metis size_mset)

lemma consistent_total: "consistent f \<Longrightarrow> \<not> f a b \<le> 0 \<Longrightarrow> f b a \<le> 0"
  unfolding consistent_def by (metis less_le_not_le linorder_not_le)

lemma consistent_trans: "consistent f \<Longrightarrow> f a b \<le> 0 \<Longrightarrow> f b c \<le> 0 \<Longrightarrow> f a c \<le> 0"
  unfolding consistent_def by blast

lemma consistent_key: "consistent f \<Longrightarrow> consistent (\<lambda>a b. f (k a) (k b))"
  unfolding consistent_def by blast

lemma set_insert_by: "set (insert_by f x xs) = insert x (set xs)"
  by (induction xs) auto

lemma sorted_insert_by:
  assumes "consistent f" "sorted_wrt (\<lambda>a b. f a b \<le> 0) xs"
  shows "sorted_wrt (\<lambda>a b. f a b \<le> 0) (insert_by f x xs)"
  using assms(2)
proof (induction xs)
  case Nil
  show ?case by simp
next
  case (Cons y ys)
  show ?case
  proof (cases "f x y \<le> 0")
    case True
    then show ?thesis
      using Cons.prems consistent_trans[OF assms(1), of x y] by auto
  next
    case False
    then have "f y x \<le> 0" using consistent_total[OF assms(1)] by blast
    then show ?thesis
      using Cons False by (auto simp: set_insert_by)
  qed
qed

lemma sorted_sort_by: "consistent f \<Longrightarrow> sorted_wrt (\<lambda>a b. f a b \<le> 0) (sort_by f xs)"
  by (induction xs) (auto simp: sorted_insert_by)



lemma sorted_wrt_strengthen:
  "sorted_wrt P xs \<Longrightarrow> distinct (map k xs) \<Longrightarrow>
   (\<And>a b. a \<in> set xs \<Longrightarrow> b \<in> set xs \<Longrightarrow> P a b \<Longrightarrow> k a \<noteq> k b \<Longrightarrow> Q a b)
   \<Longrightarrow> sorted_wrt Q xs"
  by (induction xs) auto

lemma sorted_strict:
  assumes "consistent f"
    and "\<forall>a \<in> set (map k xs). \<forall>b \<in> set (map k xs). f a b = 0 \<longrightarrow> a = b"
    and "distinct (map k xs)"
  shows "sorted_wrt (\<lambda>a b. f (k a) (k b) < 0) (sort_by (\<lambda>a b. f (k a) (k b)) xs)"
proof -
  let ?ys = "sort_by (\<lambda>a b. f (k a) (k b)) xs"
  have s: "sorted_wrt (\<lambda>a b. f (k a) (k b) \<le> 0) ?ys"
    using sorted_sort_by[OF consistent_key[OF assms(1)]] .
  have "mset (map k ?ys) = mset (map k xs)" by (simp add: mset_sort_by)
  then have d: "distinct (map k ?ys)" using assms(3) by (metis mset_eq_imp_distinct_iff)
  show ?thesis
  proof (rule sorted_wrt_strengthen[OF s d])
    fix a b
    assume ab: "a \<in> set ?ys" "b \<in> set ?ys" and le: "f (k a) (k b) \<le> 0" "k a \<noteq> k b"
    have "set ?ys = set xs"
      using mset_sort_by[of "\<lambda>a b. f (k a) (k b)" xs] by (metis set_mset_mset)
    then have "k a \<in> set (map k xs)" "k b \<in> set (map k xs)" using ab by simp_all
    then have "f (k a) (k b) \<noteq> 0" using assms(2) le(2) by blast
    then show "f (k a) (k b) < 0" using le(1) by simp
  qed
qed

text \<open>Comparison by character code is consistent, and equates equal strings only.\<close>

lemma codeCompare_refl: "codeCompare a a = 0"
  by (induction a) auto

lemma codeCompare_sym: "codeCompare b a = - codeCompare a b"
  by (induction a b rule: codeCompare.induct) auto

lemma codeCompare_eq: "codeCompare a b = 0 \<Longrightarrow> a = b"
  by (induction a b rule: codeCompare.induct) (auto split: if_splits)

lemma codeCompare_Cons_le:
  "(codeCompare (x # xs) (y # ys) \<le> 0) =
   ((of_char x :: nat) < of_char y \<or> ((of_char x :: nat) = of_char y \<and> codeCompare xs ys \<le> 0))"
  by auto

lemma codeCompare_trans:
  "codeCompare a b \<le> 0 \<Longrightarrow> codeCompare b c \<le> 0 \<Longrightarrow> codeCompare a c \<le> 0"
proof (induction a b arbitrary: c rule: codeCompare.induct)
  case 1
  then show ?case by simp
next
  case (2 y ys)
  then show ?case by (cases c) simp_all
next
  case (3 x xs)
  then show ?case by simp
next
  case (4 x xs y ys)
  show ?case
  proof (cases c)
    case Nil
    then show ?thesis using "4.prems" by simp
  next
    case (Cons z zs)
    have xy: "(of_char x :: nat) < of_char y \<or> ((of_char x :: nat) = of_char y \<and> codeCompare xs ys \<le> 0)"
      using "4.prems"(1) by (simp only: codeCompare_Cons_le)
    have yz: "(of_char y :: nat) < of_char z \<or> ((of_char y :: nat) = of_char z \<and> codeCompare ys zs \<le> 0)"
      using "4.prems"(2) unfolding Cons by (simp only: codeCompare_Cons_le)
    show ?thesis
    proof (cases "(of_char x :: nat) = of_char y \<and> (of_char y :: nat) = of_char z")
      case True
      then have "codeCompare xs zs \<le> 0"
        using xy yz "4.IH"[of zs] by simp
      then show ?thesis unfolding Cons using True by (simp only: codeCompare_Cons_le) simp
    next
      case False
      then have "(of_char x :: nat) < of_char z" using xy yz by linarith
      then show ?thesis unfolding Cons by (simp only: codeCompare_Cons_le) simp
    qed
  qed
qed

lemma consistent_codeCompare: "consistent codeCompare"
  unfolding consistent_def
proof (intro conjI allI impI)
  fix a b c
  show "codeCompare a a = 0" by (rule codeCompare_refl)
  show "(codeCompare a b < 0) = (0 < codeCompare b a)"
    using codeCompare_sym[of b a] by auto
  assume "codeCompare a b \<le> 0 \<and> codeCompare b c \<le> 0"
  then show "codeCompare a c \<le> 0" using codeCompare_trans by blast
qed

lemma consistent_canonicalCompare: "consistent canonicalCompare"
proof -
  have "canonicalCompare = (\<lambda>a b. codeCompare (composeAcute a) (composeAcute b))"
    by (intro ext) (simp add: canonicalCompare_def)
  then show ?thesis using consistent_key[OF consistent_codeCompare, of composeAcute] by simp
qed

section \<open>Items of a folder\<close>

lemma orElse_Some_Nil: "orElse (Some s) [] = s"
  by (simp add: orElse_def)

lemma createTreeItems_types:
  "map itemType (fst (createTreeItems lc p node))
   = replicate (length (children node)) Folder @ replicate (length (files node)) File"
  by (simp add: createTreeItems_def Let_def newBranchTreeItem_def o_def length_sort_by
      map_replicate_const)

lemma createTreeItems_folders:
  "map label (take (length (children node)) (fst (createTreeItems lc p node)))
   = map name (sort_by (\<lambda>a b. lc (name a) (name b)) (map snd (children node)))"
  by (simp add: createTreeItems_def Let_def newBranchTreeItem_def o_def length_sort_by)

lemma createTreeItems_files:
  "map change (drop (length (children node)) (fst (createTreeItems lc p node)))
   = map Some (sort_by (\<lambda>a b. lc (lastSegment a) (lastSegment b)) (files node))"
  by (simp add: createTreeItems_def Let_def newBranchTreeItem_def o_def length_sort_by
      orElse_Some_Nil)


section \<open>Fetching the diff\<close>

lemma getRepository_serviceWith:
  "getRepository (serviceWith root dw db) = Some (repositoryWith root dw db)"
  by (simp add: getRepository_def serviceWith_def)

lemma repoRootOf_serviceWith: "repoRootOf (serviceWith root dw db) = root"
  by (simp add: repoRootOf_def getRepository_serviceWith repositoryWith_def)







section \<open>The claims\<close>

subsection \<open>C1: every change lands in one folder of the tree\<close>

text \<open>
  C1, as the code has it. For every list of changes and every repository root,
  \<open>buildFolderTree\<close> puts each change into the files of exactly one folder: the files of
  the whole tree, each with the folder names above it, are the input changes, each with
  its folder segments (as multisets, so a change given twice is there twice). That folder
  is the one reached by walking the segments from the root, where the segments come from
  splitting the relative path at slashes and backslashes; a change without folder
  segments is in the files of the root. Sibling folders have distinct names and each is
  stored under its name. The folder names joined with slashes, followed by the last
  segment, give the relative path with every backslash written as a slash; with
  backslashes in the path this is not the relative path itself.
\<close>

theorem buildFolderTree_places_each_change:
  "keyed (buildFolderTree gs cs)
   \<and> mset (entries (buildFolderTree gs cs))
     = mset (map (\<lambda>c. (folderParts (repoRootOf gs) c, c)) cs)
   \<and> mset (map snd (entries (buildFolderTree gs cs))) = mset cs
   \<and> (\<forall>c \<in> set cs.
        (\<exists>node. walk (buildFolderTree gs cs) (folderParts (repoRootOf gs) c) = Some node
                \<and> c \<in> set (files node))
        \<and> (folderParts (repoRootOf gs) c = [] \<longrightarrow> c \<in> set (files (buildFolderTree gs cs)))
        \<and> reconstructedPath (repoRootOf gs) c
          = slashed (relativePath (repoRootOf gs) (fsPath (uri c)))
        \<and> (folderParts (repoRootOf gs) c \<noteq> [] \<longrightarrow>
             slashed (relativePath (repoRootOf gs) (fsPath (uri c)))
             = join (folderParts (repoRootOf gs) c) @ slash
               # last (split isSeparator (relativePath (repoRootOf gs) (fsPath (uri c))))))"
proof (intro conjI ballI impI)
  show "keyed (buildFolderTree gs cs)" by (rule keyed_buildFolderTree)
  show "mset (entries (buildFolderTree gs cs))
        = mset (map (\<lambda>c. (folderParts (repoRootOf gs) c, c)) cs)"
    by (rule entries_buildFolderTree)
  show "mset (map snd (entries (buildFolderTree gs cs))) = mset cs"
    by (rule files_buildFolderTree)
next
  fix c assume c: "c \<in> set cs"
  show w: "\<exists>node. walk (buildFolderTree gs cs) (folderParts (repoRootOf gs) c) = Some node
                \<and> c \<in> set (files node)"
    using walk_buildFolderTree[OF c] .
  show "reconstructedPath (repoRootOf gs) c
        = slashed (relativePath (repoRootOf gs) (fsPath (uri c)))"
    by (rule reconstructedPath_slashed)
  {
    assume "folderParts (repoRootOf gs) c = []"
    then show "c \<in> set (files (buildFolderTree gs cs))" using w by simp
  }
  {
    assume "folderParts (repoRootOf gs) c \<noteq> []"
    then show "slashed (relativePath (repoRootOf gs) (fsPath (uri c)))
             = join (folderParts (repoRootOf gs) c) @ slash
               # last (split isSeparator (relativePath (repoRootOf gs) (fsPath (uri c))))"
      using reconstructedPath_slashed[of "repoRootOf gs" c]
      by (simp add: reconstructedPath_def join_snoc)
  }
qed

theorem buildFolderTree_places_each_change_witness:
  "changeAt ''/repo/README.md'' DELETED \<in> set exampleChanges
   \<and> folderParts (repoRootOf exampleService) (changeAt ''/repo/README.md'' DELETED) = []
   \<and> changeAt ''/repo/README.md'' DELETED \<in> set (files (buildFolderTree exampleService exampleChanges))
   \<and> changeAt ''/repo/src/sub/b.ts'' INDEX_ADDED \<in> set exampleChanges
   \<and> folderParts (repoRootOf exampleService) (changeAt ''/repo/src/sub/b.ts'' INDEX_ADDED) = [''src'', ''sub'']
   \<and> slashed (relativePath (repoRootOf exampleService) (fsPath (uri (changeAt ''/repo/src/sub/b.ts'' INDEX_ADDED))))
     = join [''src'', ''sub''] @ slash # ''b.ts''"
proof -
  let ?c = "changeAt ''/repo/README.md'' DELETED"
  let ?d = "changeAt ''/repo/src/sub/b.ts'' INDEX_ADDED"
  have root: "repoRootOf exampleService = ''/repo''"
    by (simp add: exampleService_def resolvingService_def repoRootOf_serviceWith)
  have m: "?c \<in> set exampleChanges" "?d \<in> set exampleChanges"
    by (simp_all add: exampleChanges_def)
  have f: "folderParts (repoRootOf exampleService) ?c = []"
    by (simp add: root folderParts_def relativePath_def changeAt_def isSeparator_def
        slash_def backslash_def)
  have g: "folderParts (repoRootOf exampleService) ?d = [''src'', ''sub'']"
    by (simp add: root folderParts_def relativePath_def changeAt_def isSeparator_def
        slash_def backslash_def)
  have l: "last (split isSeparator (relativePath (repoRootOf exampleService) (fsPath (uri ?d)))) = ''b.ts''"
    by (simp add: root relativePath_def changeAt_def isSeparator_def slash_def backslash_def)
  from buildFolderTree_places_each_change[of exampleService exampleChanges] m f g l
  show ?thesis by auto
qed

text \<open>
  As the claim words it, the joined folder names are the relative directory path. For a
  path separated by backslashes they are not: the folders of \<open>src\<backslash>sub\<backslash>b.ts\<close> join to
  \<open>src/sub\<close>.
\<close>

theorem buildFolderTree_backslash_counterexample:
  "relativePath windowsRoot (fsPath (uri windowsChange))
     = ''src'' @ backslash # ''sub'' @ backslash # ''b.ts''
   \<and> folderParts windowsRoot windowsChange = [''src'', ''sub'']
   \<and> join (folderParts windowsRoot windowsChange) = ''src/sub''
   \<and> ''src/sub'' \<noteq> ''src'' @ backslash # ''sub''
   \<and> reconstructedPath windowsRoot windowsChange = ''src/sub/b.ts''
   \<and> reconstructedPath windowsRoot windowsChange
       \<noteq> relativePath windowsRoot (fsPath (uri windowsChange))"
  by (simp add: windowsRoot_def windowsChange_def changeAt_def relativePath_def folderParts_def
      reconstructedPath_def isSeparator_def slash_def backslash_def)

subsection \<open>C2: classification of a failed diff call\<close>

text \<open>
  C2, as the code has it. When the collaborator's diff call fails, the message is
  classified by substring match that distinguishes upper and lower case: a message
  containing \<open>bad revision\<close>, \<open>unknown revision\<close> or \<open>not a valid object name\<close> gives
  no changes, no conflict and the branch-not-found message suggesting a fetch; otherwise
  one containing \<open>conflict\<close>, \<open>CONFLICT\<close> or \<open>BOTH_MODIFIED\<close> gives no changes, a
  conflict and a fixed message; any other message gives no changes, no conflict and the
  message itself.
\<close>

theorem classification_case_sensitive:
  assumes "getRepository gs = Some repo"
    and "(type src = workingTree \<and> diffWith repo targetBranch = Inl e) \<or>
         (type src = branch \<and> branchName src = Some b \<and> b \<noteq> [] \<and>
          diffBetween repo targetBranch b = Inl e)"
  shows "snd (getDiffWithConflictDetection gs src targetBranch) =
     Inr (if includes_str (errorMessage e) ''bad revision''
             \<or> includes_str (errorMessage e) ''unknown revision''
             \<or> includes_str (errorMessage e) ''not a valid object name''
          then \<lparr>changes = [], hasConflict = False,
                error = Some (''Branch not found: '' @ targetBranch
                              @ ''. Try running 'git fetch' first.'')\<rparr>
          else if includes_str (errorMessage e) ''conflict''
             \<or> includes_str (errorMessage e) ''CONFLICT''
             \<or> includes_str (errorMessage e) ''BOTH_MODIFIED''
          then \<lparr>changes = [], hasConflict = True,
                error = Some ''Merge conflict detected between branches''\<rparr>
          else \<lparr>changes = [], hasConflict = False, error = Some (errorMessage e)\<rparr>)"
  using assms
  by (auto simp: getDiffWithConflictDetection_def isBadRevision_def isConflict_def Let_def)

theorem classification_case_sensitive_witness:
  "snd (getDiffWithConflictDetection (rejectingService (Error ''unknown revision 'foo' ''))
          \<lparr>type = workingTree, branchName = None\<rparr> ''main'')
   = Inr \<lparr>changes = [], hasConflict = False,
          error = Some ''Branch not found: main. Try running 'git fetch' first.''\<rparr>
   \<and> snd (getDiffWithConflictDetection (rejectingService (Error ''CONFLICT (content)''))
          \<lparr>type = branch, branchName = Some ''dev''\<rparr> ''main'')
   = Inr \<lparr>changes = [], hasConflict = True,
          error = Some ''Merge conflict detected between branches''\<rparr>
   \<and> snd (getDiffWithConflictDetection (rejectingService (Thrown ''network timeout''))
          \<lparr>type = workingTree, branchName = None\<rparr> ''main'')
   = Inr \<lparr>changes = [], hasConflict = False, error = Some ''network timeout''\<rparr>"
proof -
  have r: "getRepository (rejectingService e)
           = Some (repositoryWith ''/repo'' (\<lambda>r. Inl e) (\<lambda>r1 r2. Inl e))" for e
    by (simp add: rejectingService_def getRepository_serviceWith)
  have 1: "snd (getDiffWithConflictDetection (rejectingService (Error ''unknown revision 'foo' ''))
          \<lparr>type = workingTree, branchName = None\<rparr> ''main'')
   = Inr \<lparr>changes = [], hasConflict = False,
          error = Some ''Branch not found: main. Try running 'git fetch' first.''\<rparr>"
    using classification_case_sensitive[where gs = "rejectingService (Error ''unknown revision 'foo' '')"
        and e = "Error ''unknown revision 'foo' ''" and b = "''dev''"
        and src = "\<lparr>type = workingTree, branchName = None\<rparr>" and targetBranch = "''main''",
        OF r]
    by (simp add: repositoryWith_def errorMessage_def)
  have 2: "snd (getDiffWithConflictDetection (rejectingService (Error ''CONFLICT (content)''))
          \<lparr>type = branch, branchName = Some ''dev''\<rparr> ''main'')
   = Inr \<lparr>changes = [], hasConflict = True,
          error = Some ''Merge conflict detected between branches''\<rparr>"
    using classification_case_sensitive[where gs = "rejectingService (Error ''CONFLICT (content)'')"
        and e = "Error ''CONFLICT (content)''" and b = "''dev''"
        and src = "\<lparr>type = branch, branchName = Some ''dev''\<rparr>" and targetBranch = "''main''",
        OF r]
    by (simp add: repositoryWith_def errorMessage_def)
  have 3: "snd (getDiffWithConflictDetection (rejectingService (Thrown ''network timeout''))
          \<lparr>type = workingTree, branchName = None\<rparr> ''main'')
   = Inr \<lparr>changes = [], hasConflict = False, error = Some ''network timeout''\<rparr>"
    using classification_case_sensitive[where gs = "rejectingService (Thrown ''network timeout'')"
        and e = "Thrown ''network timeout''" and b = "''dev''"
        and src = "\<lparr>type = workingTree, branchName = None\<rparr>" and targetBranch = "''main''",
        OF r]
    by (simp add: repositoryWith_def errorMessage_def)
  show ?thesis using 1 2 3 by simp
qed

text \<open>
  The claim calls the match case-insensitive. The message
  \<open>fatal: Not a valid object name main\<close> contains the phrase when case is ignored, and is
  passed through as a generic error.
\<close>

theorem classification_ignoring_case_counterexample:
  "includes_ignoring_case ''fatal: Not a valid object name main'' ''not a valid object name''
   \<and> snd (getDiffWithConflictDetection
            (rejectingService (Error ''fatal: Not a valid object name main''))
            \<lparr>type = workingTree, branchName = None\<rparr> ''main'')
       = Inr \<lparr>changes = [], hasConflict = False,
              error = Some ''fatal: Not a valid object name main''\<rparr>
   \<and> Some ''fatal: Not a valid object name main''
       \<noteq> Some (''Branch not found: '' @ ''main'' @ ''. Try running 'git fetch' first.'')"
proof -
  have "includes_ignoring_case ''fatal: Not a valid object name main'' ''not a valid object name''"
    by code_simp
  moreover have "snd (getDiffWithConflictDetection
            (rejectingService (Error ''fatal: Not a valid object name main''))
            \<lparr>type = workingTree, branchName = None\<rparr> ''main'')
       = Inr \<lparr>changes = [], hasConflict = False,
              error = Some ''fatal: Not a valid object name main''\<rparr>"
    by (simp add: getDiffWithConflictDetection_def rejectingService_def serviceWith_def repositoryWith_def
        getRepository_def errorMessage_def isBadRevision_def isConflict_def)
  ultimately show ?thesis by simp
qed

subsection \<open>C3: folders before files, each group sorted\<close>

text \<open>
  C3, as the code has it. For every folder node and every consistent \<open>localeCompare\<close>, the items of
  \<open>createTreeItems\<close> are one item per subfolder, all of type \<open>Folder\<close>, followed by one
  item per file, all of type \<open>File\<close>. The folder items carry the names of the subfolders
  and are in ascending order of \<open>localeCompare\<close>; the file items carry the files and are
  in ascending order of their last path segment. When the names of a group are distinct
  and no two different names of the group compare equal under \<open>localeCompare\<close>, the
  group is strictly ascending; names that are merely different strings need not be.
\<close>

theorem createTreeItems_folders_then_files:
  assumes "consistent localeCompare"
  shows "(let items = fst (createTreeItems localeCompare p node); n = length (children node) in
     map itemType items = replicate n Folder @ replicate (length (files node)) File
   \<and> mset (map label (take n items)) = mset (map (\<lambda>e. name (snd e)) (children node))
   \<and> mset (map change (drop n items)) = mset (map Some (files node))
   \<and> sorted_wrt (\<lambda>a b. localeCompare a b \<le> 0) (map label (take n items))
   \<and> sorted_wrt (\<lambda>a b. localeCompare a b \<le> 0)
        (map (\<lambda>i. lastSegment (the (change i))) (drop n items))
   \<and> ((\<forall>a \<in> set (map (\<lambda>e. name (snd e)) (children node)).
          \<forall>b \<in> set (map (\<lambda>e. name (snd e)) (children node)).
            localeCompare a b = 0 \<longrightarrow> a = b)
        \<and> distinct (map (\<lambda>e. name (snd e)) (children node))
      \<longrightarrow> sorted_wrt (\<lambda>a b. localeCompare a b < 0) (map label (take n items)))
   \<and> ((\<forall>a \<in> set (map lastSegment (files node)).
          \<forall>b \<in> set (map lastSegment (files node)). localeCompare a b = 0 \<longrightarrow> a = b)
        \<and> distinct (map lastSegment (files node))
      \<longrightarrow> sorted_wrt (\<lambda>a b. localeCompare a b < 0)
            (map (\<lambda>i. lastSegment (the (change i))) (drop n items))))"
proof -
  let ?items = "fst (createTreeItems localeCompare p node)"
  let ?n = "length (children node)"
  let ?folders = "sort_by (\<lambda>a b. localeCompare (name a) (name b)) (map snd (children node))"
  let ?fs = "sort_by (\<lambda>a b. localeCompare (lastSegment a) (lastSegment b)) (files node)"
  have names: "map (\<lambda>i. lastSegment (the (change i))) (drop ?n ?items) = map lastSegment ?fs"
  proof -
    have "map (\<lambda>i. lastSegment (the (change i))) (drop ?n ?items)
          = map (\<lambda>c. lastSegment (the c)) (map change (drop ?n ?items))"
      by (simp add: o_def)
    then show ?thesis by (simp only: createTreeItems_files) (simp add: o_def)
  qed
  have 1: "map itemType ?items = replicate ?n Folder @ replicate (length (files node)) File"
    by (rule createTreeItems_types)
  have 2: "mset (map label (take ?n ?items)) = mset (map (\<lambda>e. name (snd e)) (children node))"
  proof -
    have "mset (map label (take ?n ?items)) = image_mset name (mset ?folders)"
      by (simp add: createTreeItems_folders)
    also have "\<dots> = image_mset name (mset (map snd (children node)))"
      by (simp only: mset_sort_by)
    also have "\<dots> = mset (map (\<lambda>e. name (snd e)) (children node))"
      by (simp add: image_mset.compositionality o_def)
    finally show ?thesis .
  qed
  have 3: "mset (map change (drop ?n ?items)) = mset (map Some (files node))"
    by (simp add: createTreeItems_files mset_sort_by)
  have 4: "sorted_wrt (\<lambda>a b. localeCompare a b \<le> 0) (map label (take ?n ?items))"
    using sorted_sort_by[OF consistent_key[OF assms, of name], of "map snd (children node)"]
    by (simp add: createTreeItems_folders sorted_wrt_map)
  have 5: "sorted_wrt (\<lambda>a b. localeCompare a b \<le> 0)
             (map (\<lambda>i. lastSegment (the (change i))) (drop ?n ?items))"
    using sorted_sort_by[OF consistent_key[OF assms, of lastSegment], of "files node"]
    by (simp add: names sorted_wrt_map)
  have 6: "sorted_wrt (\<lambda>a b. localeCompare a b < 0) (map label (take ?n ?items))"
    if "\<forall>a \<in> set (map (\<lambda>e. name (snd e)) (children node)).
          \<forall>b \<in> set (map (\<lambda>e. name (snd e)) (children node)). localeCompare a b = 0 \<longrightarrow> a = b"
      and "distinct (map (\<lambda>e. name (snd e)) (children node))"
  proof -
    have e: "map name (map snd (children node)) = map (\<lambda>e. name (snd e)) (children node)"
      by (simp add: o_def)
    have d: "distinct (map name (map snd (children node)))" using that(2) by (simp only: e)
    have a: "\<forall>a \<in> set (map name (map snd (children node))).
               \<forall>b \<in> set (map name (map snd (children node))). localeCompare a b = 0 \<longrightarrow> a = b"
      using that(1) by (simp only: e)
    from sorted_strict[OF assms a d]
    show ?thesis by (simp add: createTreeItems_folders sorted_wrt_map)
  qed
  have 7: "sorted_wrt (\<lambda>a b. localeCompare a b < 0)
             (map (\<lambda>i. lastSegment (the (change i))) (drop ?n ?items))"
    if "\<forall>a \<in> set (map lastSegment (files node)).
          \<forall>b \<in> set (map lastSegment (files node)). localeCompare a b = 0 \<longrightarrow> a = b"
      and "distinct (map lastSegment (files node))"
    using sorted_strict[OF assms that]
    by (simp add: names sorted_wrt_map)
  show ?thesis
    unfolding Let_def using 1 2 3 4 5 6 7 by blast
qed

theorem createTreeItems_folders_then_files_witness:
  "map label (fst (createTreeItems codeCompare exampleProvider exampleNode))
     = [''docs'', ''src'', ''a.ts'', ''b.ts'']
   \<and> map itemType (fst (createTreeItems codeCompare exampleProvider exampleNode))
     = [Folder, Folder, File, File]
   \<and> distinct (map (\<lambda>e. name (snd e)) (children exampleNode))
   \<and> sorted_wrt (\<lambda>a b. codeCompare a b < 0)
        (map label (take (length (children exampleNode))
           (fst (createTreeItems codeCompare exampleProvider exampleNode))))"
proof -
  have l: "map label (fst (createTreeItems codeCompare exampleProvider exampleNode))
     = [''docs'', ''src'', ''a.ts'', ''b.ts'']"
    by (simp add: createTreeItems_def exampleNode_def changeAt_def lastSegment_def orElse_def
        isSlash_def slash_def newBranchTreeItem_def Let_def)
  have d: "distinct (map (\<lambda>e. name (snd e)) (children exampleNode))"
    by (simp add: exampleNode_def)
  have a: "\<forall>a \<in> set (map (\<lambda>e. name (snd e)) (children exampleNode)).
             \<forall>b \<in> set (map (\<lambda>e. name (snd e)) (children exampleNode)).
               codeCompare a b = 0 \<longrightarrow> a = b"
    using codeCompare_eq by blast
  have s: "sorted_wrt (\<lambda>a b. codeCompare a b < 0)
        (map label (take (length (children exampleNode))
           (fst (createTreeItems codeCompare exampleProvider exampleNode))))"
    using createTreeItems_folders_then_files[OF consistent_codeCompare,
            of exampleProvider exampleNode] a d
    unfolding Let_def by blast
  have t: "map itemType (fst (createTreeItems codeCompare exampleProvider exampleNode))
     = [Folder, Folder, File, File]"
    using createTreeItems_folders_then_files[OF consistent_codeCompare,
            of exampleProvider exampleNode]
    by (simp add: Let_def exampleNode_def)
  show ?thesis using l t d s by simp
qed

text \<open>
  As the claim words it, names that are not duplicates are enough for a strictly
  ascending group. The two ways of writing \<open>e-acute.ts\<close> are different names, a
  consistent comparison that equates canonically equivalent strings returns 0 for them,
  and the two file items stand next to each other without the first comparing less.
\<close>

theorem createTreeItems_equivalent_names_counterexample:
  "consistent canonicalCompare
   \<and> distinct (map lastSegment (files acuteNode))
   \<and> map lastSegment (files acuteNode) = [composedName, decomposedName]
   \<and> map label (fst (createTreeItems canonicalCompare exampleProvider acuteNode))
     = [composedName, decomposedName]
   \<and> canonicalCompare composedName decomposedName = 0
   \<and> \<not> canonicalCompare composedName decomposedName < 0"
proof -
  have n: "map lastSegment (files acuteNode) = [composedName, decomposedName]"
    by (simp add: acuteNode_def changeAt_def lastSegment_def composedName_def
        decomposedName_def isSlash_def slash_def)
  have d: "composedName \<noteq> decomposedName"
    by (simp add: composedName_def decomposedName_def)
  have c: "canonicalCompare composedName decomposedName = 0"
    by (simp add: canonicalCompare_def composedName_def decomposedName_def)
  have l: "map label (fst (createTreeItems canonicalCompare exampleProvider acuteNode))
     = [composedName, decomposedName]"
    by (simp add: createTreeItems_def acuteNode_def changeAt_def lastSegment_def orElse_def
        isSlash_def slash_def newBranchTreeItem_def Let_def canonicalCompare_def
        composedName_def decomposedName_def)
  show ?thesis using consistent_canonicalCompare n d c l by simp
qed

subsection \<open>C4: expanding a folder\<close>



subsection \<open>C5: the cached diff result\<close>




subsection \<open>C6: no target, no diff\<close>

text \<open>
  C6. A new provider has the working tree as source and no target. Whenever the target
  is unset, \<open>getRootItems\<close> returns the Source item and the Target item and nothing
  else, leaves the provider as it was and makes no collaborator call; \<open>getChildren\<close> for
  the root is that same result when there is a repository.
\<close>

theorem no_target_only_selectors:
  "source (newBranchTreeProvider gs) = \<lparr>type = workingTree, branchName = None\<rparr>
   \<and> target (newBranchTreeProvider gs) = None
   \<and> (target p = None \<longrightarrow>
        getRootItems localeCompare p
        = (Inr [newBranchTreeItem (''Source: '' @ getSourceLabel p) Source NoneState None None,
                newBranchTreeItem ''Target: (click to select)'' Target NoneState None None], p)
        \<and> map itemType (projr (fst (getRootItems localeCompare p))) = [Source, Target]
        \<and> requests (snd (getRootItems localeCompare p)) = requests p
        \<and> (getRepository (gitService p) \<noteq> None \<longrightarrow>
             getChildren localeCompare p None = getRootItems localeCompare p))"
  by (auto simp: newBranchTreeProvider_def getRootItems_def getChildren_def orElse_def
        newBranchTreeItem_def)

theorem no_target_only_selectors_witness:
  "target (newBranchTreeProvider exampleService) = None
   \<and> getRootItems codeCompare (newBranchTreeProvider exampleService)
     = (Inr [newBranchTreeItem ''Source: Working Tree (main)'' Source NoneState None None,
             newBranchTreeItem ''Target: (click to select)'' Target NoneState None None],
        newBranchTreeProvider exampleService)
   \<and> requests (snd (getRootItems codeCompare (newBranchTreeProvider exampleService))) = []"
proof -
  have l: "getSourceLabel (newBranchTreeProvider exampleService) = ''Working Tree (main)''"
    by (simp add: getSourceLabel_def newBranchTreeProvider_def getCurrentBranchName_def
        exampleService_def resolvingService_def getRepository_serviceWith repositoryWith_def)
  have r: "requests (newBranchTreeProvider exampleService) = []"
    by (simp add: newBranchTreeProvider_def)
  show ?thesis
    using no_target_only_selectors[of exampleService "newBranchTreeProvider exampleService" codeCompare] l r
    by simp
qed

subsection \<open>C7: which diff is requested\<close>

text \<open>
  C7, as the code has it. With a repository, for every target: when the source is the
  working tree, the one call made is \<open>diffWith(target)\<close>; when the source is a branch
  with a non-empty name, the one call made is \<open>diffBetween(target, name)\<close>, the target
  first; in both cases the changes the call resolves to are returned. A branch source
  whose name is missing or empty makes no call and returns no changes.
\<close>

theorem diff_dispatch_on_source:
  assumes "getRepository gs = Some repo"
  shows "(type src = workingTree \<longrightarrow>
            fst (getDiffWithConflictDetection gs src targetBranch) = [DiffWith targetBranch]
            \<and> (\<forall>cs. diffWith repo targetBranch = Inr cs \<longrightarrow>
                 snd (getDiffWithConflictDetection gs src targetBranch)
                 = Inr \<lparr>changes = cs, hasConflict = False, error = None\<rparr>))
       \<and> (\<forall>b. type src = branch \<and> branchName src = Some b \<and> b \<noteq> [] \<longrightarrow>
            fst (getDiffWithConflictDetection gs src targetBranch) = [DiffBetween targetBranch b]
            \<and> (\<forall>cs. diffBetween repo targetBranch b = Inr cs \<longrightarrow>
                 snd (getDiffWithConflictDetection gs src targetBranch)
                 = Inr \<lparr>changes = cs, hasConflict = False, error = None\<rparr>))
       \<and> (type src = branch \<and> orElse (branchName src) [] = [] \<longrightarrow>
            getDiffWithConflictDetection gs src targetBranch
            = ([], Inr \<lparr>changes = [], hasConflict = False, error = None\<rparr>))"
  using assms
  by (auto simp: getDiffWithConflictDetection_def Let_def orElse_def split: option.splits)

theorem diff_dispatch_on_source_witness:
  "fst (getDiffWithConflictDetection exampleService \<lparr>type = workingTree, branchName = None\<rparr>
          ''main'') = [DiffWith ''main'']
   \<and> fst (getDiffWithConflictDetection exampleService
            \<lparr>type = branch, branchName = Some ''dev''\<rparr> ''main'') = [DiffBetween ''main'' ''dev'']
   \<and> snd (getDiffWithConflictDetection exampleService
            \<lparr>type = branch, branchName = Some ''dev''\<rparr> ''main'')
     = Inr \<lparr>changes = exampleChanges, hasConflict = False, error = None\<rparr>"
proof -
  have r: "getRepository exampleService
           = Some (repositoryWith ''/repo'' (\<lambda>r. Inr exampleChanges) (\<lambda>r1 r2. Inr exampleChanges))"
    by (simp add: exampleService_def resolvingService_def getRepository_serviceWith)
  show ?thesis
    using diff_dispatch_on_source[OF r, of "\<lparr>type = workingTree, branchName = None\<rparr>" "''main''"]
      diff_dispatch_on_source[OF r, of "\<lparr>type = branch, branchName = Some ''dev''\<rparr>" "''main''"]
    by (simp add: repositoryWith_def)
qed

text \<open>
  As the claim words it, every branch source requests \<open>diffBetween\<close>. A branch source
  with the empty name requests nothing.
\<close>

theorem diff_dispatch_empty_branch_counterexample:
  "getDiffWithConflictDetection (resolvingService ''/repo'' [changeAt ''/repo/a.ts'' MODIFIED])
     \<lparr>type = branch, branchName = Some ''''\<rparr> ''main''
   = ([], Inr \<lparr>changes = [], hasConflict = False, error = None\<rparr>)"
  by (simp add: getDiffWithConflictDetection_def resolvingService_def serviceWith_def repositoryWith_def
        getRepository_def)

subsection \<open>C8: failures are returned, not thrown\<close>

text \<open>
  C8. For every service, source and target, \<open>getDiffWithConflictDetection\<close> returns a
  result and lets no exception out. Without a repository the result carries the message
  \<open>No repository found\<close>; when the collaborator call rejected, with whatever value, the
  result has no changes and carries a message.
\<close>

theorem getDiffWithConflictDetection_never_throws:
  "\<exists>r. snd (getDiffWithConflictDetection gs src targetBranch) = Inr r
     \<and> (getRepository gs = None \<longrightarrow> error r = Some ''No repository found'')
     \<and> (\<forall>repo e. getRepository gs = Some repo
           \<and> (type src = workingTree \<and> diffWith repo targetBranch = Inl e
              \<or> type src = branch
                \<and> (\<exists>b. branchName src = Some b \<and> b \<noteq> [] \<and> diffBetween repo targetBranch b = Inl e))
           \<longrightarrow> changes r = [] \<and> error r \<noteq> None)"
  by (cases "type src")
     (auto simp: getDiffWithConflictDetection_def Let_def split: option.splits sum.splits)

theorem getDiffWithConflictDetection_never_throws_witness:
  "snd (getDiffWithConflictDetection (rejectingService (Error ''network timeout''))
          \<lparr>type = workingTree, branchName = None\<rparr> ''main'')
   = Inr \<lparr>changes = [], hasConflict = False, error = Some ''network timeout''\<rparr>
   \<and> snd (getDiffWithConflictDetection \<lparr>api = None\<rparr>
          \<lparr>type = workingTree, branchName = None\<rparr> ''main'')
   = Inr \<lparr>changes = [], hasConflict = False, error = Some ''No repository found''\<rparr>"
proof -
  let ?gs = "rejectingService (Error ''network timeout'')"
  let ?src = "\<lparr>type = workingTree, branchName = None\<rparr>"
  have r: "getRepository ?gs
           = Some (repositoryWith ''/repo'' (\<lambda>r. Inl (Error ''network timeout''))
                     (\<lambda>r1 r2. Inl (Error ''network timeout'')))"
    by (simp add: rejectingService_def getRepository_serviceWith)
  have n: "getRepository \<lparr>api = None\<rparr> = None" by (simp add: getRepository_def)
  have 1: "snd (getDiffWithConflictDetection ?gs ?src ''main'')
           = Inr \<lparr>changes = [], hasConflict = False, error = Some ''network timeout''\<rparr>"
    by (simp add: getDiffWithConflictDetection_def r repositoryWith_def errorMessage_def
        isBadRevision_def isConflict_def)
  obtain x where x: "snd (getDiffWithConflictDetection \<lparr>api = None\<rparr> ?src ''main'') = Inr x"
     "error x = Some ''No repository found''"
    using getDiffWithConflictDetection_never_throws[of "\<lparr>api = None\<rparr>" ?src "''main''"] n by auto
  have 2: "snd (getDiffWithConflictDetection \<lparr>api = None\<rparr> ?src ''main'')
           = Inr \<lparr>changes = [], hasConflict = False, error = Some ''No repository found''\<rparr>"
    using x by (simp add: getDiffWithConflictDetection_def n)
  show ?thesis using 1 2 by simp
qed

subsection \<open>C9: bad revision is checked before conflict\<close>

text \<open>
  C9. When the message of a failed call matches a bad-revision phrase and a conflict
  phrase, the result is the branch-not-found result, without conflict.
\<close>

theorem bad_revision_before_conflict:
  assumes "getRepository gs = Some repo"
    and "(type src = workingTree \<and> diffWith repo targetBranch = Inl e) \<or>
         (type src = branch \<and> branchName src = Some b \<and> b \<noteq> [] \<and>
          diffBetween repo targetBranch b = Inl e)"
    and "isBadRevision (errorMessage e)" and "isConflict (errorMessage e)"
  shows "snd (getDiffWithConflictDetection gs src targetBranch) =
     Inr \<lparr>changes = [], hasConflict = False,
          error = Some (''Branch not found: '' @ targetBranch @ ''. Try running 'git fetch' first.'')\<rparr>"
  using assms
  by (auto simp: getDiffWithConflictDetection_def Let_def)

theorem bad_revision_before_conflict_witness:
  "isBadRevision ''fatal: unknown revision (CONFLICT)''
   \<and> isConflict ''fatal: unknown revision (CONFLICT)''
   \<and> snd (getDiffWithConflictDetection
            (rejectingService (Error ''fatal: unknown revision (CONFLICT)''))
            \<lparr>type = workingTree, branchName = None\<rparr> ''main'')
     = Inr \<lparr>changes = [], hasConflict = False,
            error = Some ''Branch not found: main. Try running 'git fetch' first.''\<rparr>"
proof -
  let ?e = "Error ''fatal: unknown revision (CONFLICT)''"
  have r: "getRepository (rejectingService ?e)
           = Some (repositoryWith ''/repo'' (\<lambda>r. Inl ?e) (\<lambda>r1 r2. Inl ?e))"
    by (simp add: rejectingService_def getRepository_serviceWith)
  have b: "isBadRevision (errorMessage ?e)" by (simp add: isBadRevision_def errorMessage_def)
  have c: "isConflict (errorMessage ?e)" by (simp add: isConflict_def errorMessage_def)
  have f: "(type \<lparr>type = workingTree, branchName = None\<rparr> = workingTree
            \<and> diffWith (repositoryWith ''/repo'' (\<lambda>r. Inl ?e) (\<lambda>r1 r2. Inl ?e)) ''main'' = Inl ?e)
         \<or> (type \<lparr>type = workingTree, branchName = None\<rparr> = branch
            \<and> branchName \<lparr>type = workingTree, branchName = None\<rparr> = Some ''dev'' \<and> ''dev'' \<noteq> []
            \<and> diffBetween (repositoryWith ''/repo'' (\<lambda>r. Inl ?e) (\<lambda>r1 r2. Inl ?e)) ''main'' ''dev''
              = Inl ?e)"
    by (simp add: repositoryWith_def)
  show ?thesis using bad_revision_before_conflict[OF r f b c] b c by (simp add: errorMessage_def)
qed

subsection \<open>C10: the root is stripped as a prefix of characters\<close>

text \<open>
  C10. When the path of a change is the repository root followed by a remainder that
  does not begin with a separator, the relative path is that remainder, the folder
  segments are those of the remainder, and \<open>buildFolderTree\<close> files the change in the
  folder reached by them: \<open>/repository/x.ts\<close> under the root \<open>/repo\<close> is filed in a
  folder \<open>sitory\<close>.
\<close>

theorem relativePath_raw_prefix:
  assumes "fsPath (uri c) = repoRootOf gs @ rest" and "rest \<noteq> []"
    and "\<not> isSeparator (hd rest)" and "c \<in> set cs"
  shows "relativePath (repoRootOf gs) (fsPath (uri c)) = rest
       \<and> folderParts (repoRootOf gs) c = butlast (split isSeparator rest)
       \<and> (\<exists>node. walk (buildFolderTree gs cs) (butlast (split isSeparator rest)) = Some node
                 \<and> c \<in> set (files node))"
proof -
  have r: "relativePath (repoRootOf gs) (fsPath (uri c)) = rest"
    using assms(2,3)
    by (simp add: assms(1) relativePath_prefix startsWith_single isSeparator_def)
  then have f: "folderParts (repoRootOf gs) c = butlast (split isSeparator rest)"
    by (simp add: folderParts_def)
  show ?thesis using r f walk_buildFolderTree[OF assms(4), of gs] by simp
qed

theorem relativePath_raw_prefix_witness:
  "relativePath ''/repo'' ''/repository/x.ts'' = ''sitory/x.ts''
   \<and> folderParts ''/repo'' (changeAt ''/repository/x.ts'' MODIFIED) = [''sitory'']
   \<and> buildFolderTree exampleService [changeAt ''/repository/x.ts'' MODIFIED]
     = FolderNode [] []
         [(''sitory'', FolderNode ''sitory'' ''sitory'' [] [changeAt ''/repository/x.ts'' MODIFIED])]
         []"
proof -
  let ?c = "changeAt ''/repository/x.ts'' MODIFIED"
  have root: "repoRootOf exampleService = ''/repo''"
    by (simp add: exampleService_def resolvingService_def repoRootOf_serviceWith)
  have 1: "fsPath (uri ?c) = repoRootOf exampleService @ ''sitory/x.ts''"
    by (simp add: root changeAt_def)
  have 2: "''sitory/x.ts'' \<noteq> []" by simp
  have 3: "\<not> isSeparator (hd ''sitory/x.ts'')"
    by (simp add: isSeparator_def slash_def backslash_def)
  have 4: "?c \<in> set [?c]" by simp
  have s: "butlast (split isSeparator ''sitory/x.ts'') = [''sitory'']"
    by (simp add: isSeparator_def slash_def backslash_def)
  have b: "buildFolderTree exampleService [?c]
     = FolderNode [] [] [(''sitory'', FolderNode ''sitory'' ''sitory'' [] [?c])] []"
    by code_simp
  have r: "relativePath (repoRootOf exampleService) (fsPath (uri ?c)) = ''sitory/x.ts''"
    using relativePath_raw_prefix[OF 1 2 3 4] by blast
  have f: "folderParts (repoRootOf exampleService) ?c = butlast (split isSeparator ''sitory/x.ts'')"
    using relativePath_raw_prefix[OF 1 2 3 4] by blast
  have r': "relativePath ''/repo'' ''/repository/x.ts'' = ''sitory/x.ts''"
    using r unfolding root by (simp add: changeAt_def)
  have f': "folderParts ''/repo'' ?c = [''sitory'']"
    using f unfolding root s .
  show ?thesis using r' f' b by simp
qed

end
